theory Spec2Isabelle
  imports Complex_Main "HOL-Library.Monad_Syntax"
begin

section \<open>Numbers and errors\<close>

text \<open>
  A JavaScript \<^verbatim>\<open>number\<close> is a double: a finite value, which is a rational, or one of
  \<^verbatim>\<open>NaN\<close>, \<^verbatim>\<open>Infinity\<close>, \<^verbatim>\<open>-Infinity\<close>. The finite values are modelled by all of
  \<^typ>\<open>rat\<close>, which has more values than the doubles; every theorem below that speaks of
  all numbers therefore speaks of all doubles, and every concrete input used below is a
  double.
\<close>

datatype number = Num rat | NaN | Infinity | NegInfinity

text \<open>\<^verbatim>\<open>Number.isSafeInteger(x)\<close>: a finite integer of magnitude at most \<open>2^53 - 1\<close>.\<close>

definition MAX_SAFE_INTEGER :: int where
  "MAX_SAFE_INTEGER = 2 ^ 53 - 1"

fun isSafeInteger :: "number \<Rightarrow> bool" where
  "isSafeInteger (Num r) = (r = of_int \<lfloor>r\<rfloor> \<and> \<bar>\<lfloor>r\<rfloor>\<bar> \<le> MAX_SAFE_INTEGER)"
| "isSafeInteger _ = False"

text \<open>The comparisons \<^verbatim>\<open>x <= y\<close> and \<^verbatim>\<open>x < y\<close> of two numbers; any comparison with
  \<^verbatim>\<open>NaN\<close> is false.\<close>

fun number_le :: "number \<Rightarrow> number \<Rightarrow> bool" where
  "number_le NaN _ = False"
| "number_le _ NaN = False"
| "number_le (Num a) (Num b) = (a \<le> b)"
| "number_le NegInfinity _ = True"
| "number_le _ Infinity = True"
| "number_le _ _ = False"

fun number_less :: "number \<Rightarrow> number \<Rightarrow> bool" where
  "number_less NaN _ = False"
| "number_less _ NaN = False"
| "number_less (Num a) (Num b) = (a < b)"
| "number_less NegInfinity NegInfinity = False"
| "number_less NegInfinity _ = True"
| "number_less Infinity _ = False"
| "number_less _ Infinity = True"
| "number_less _ _ = False"


text \<open>The integer a safe integer stands for.\<close>

fun int_of_number :: "number \<Rightarrow> int" where
  "int_of_number (Num r) = \<lfloor>r\<rfloor>"
| "int_of_number _ = 0"

text \<open>
  A URL is either a string, as \<^verbatim>\<open>getComponents\<close> builds it, or a \<^verbatim>\<open>URL\<close> object, as
  \<^verbatim>\<open>getIssuesByComponents\<close> builds it: the string the object was made from, and its
  search parameters in order. \<^verbatim>\<open>url.searchParams.set(k, v)\<close> overwrites the value of a
  parameter that is there and appends one that is not.
\<close>

record url =
  href_base :: string
  searchParams :: "(string \<times> string) list"

fun searchParams_set :: "string \<Rightarrow> string \<Rightarrow> (string \<times> string) list \<Rightarrow> (string \<times> string) list" where
  "searchParams_set k v [] = [(k, v)]"
| "searchParams_set k v ((k', v') # ps) =
     (if k' = k then (k, v) # filter (\<lambda>p. fst p \<noteq> k) ps else (k', v') # searchParams_set k v ps)"

definition set_param :: "string \<Rightarrow> string \<Rightarrow> url \<Rightarrow> url" where
  "set_param k v u = u\<lparr>searchParams := searchParams_set k v (searchParams u)\<rparr>"

datatype url_value = UrlString string | UrlObject url

text \<open>
  The errors the code raises, as values. \<^verbatim>\<open>TypeError\<close> is what the specification calls
  InvalidArgument, \<^verbatim>\<open>JiraResponseError\<close> (url, status, message) its TrackerResponseError
  and \<^verbatim>\<open>ZodError\<close> its SchemaValidationError. \<^verbatim>\<open>RangeError\<close> is raised where an
  array of more elements than the engine makes is asked for,
  \<^verbatim>\<open>InvalidJson\<close> by \<^verbatim>\<open>res.json()\<close> on a body that is not JSON text, and
  \<^verbatim>\<open>FetchError\<close> by \<^verbatim>\<open>fetch\<close> when no response arrives.
\<close>

datatype error =
    TypeError string
  | RangeError string
  | JiraResponseError url_value nat string
  | ZodError
  | InvalidJson
  | FetchError string

section \<open>The pagination planner\<close>

record page_window =
  startAt :: int
  pageSize :: int

text \<open>
  \<^verbatim>\<open>createPaginationChunks({ pageSize, total })\<close>. Past the two guards both arguments are
  integers of magnitude below \<open>2^53\<close>, and the arithmetic of the source is exact on them:
  the quotient \<^verbatim>\<open>total / pageSize\<close> is rounded to a double before \<^verbatim>\<open>Math.ceil\<close>, but a
  quotient that is not an integer lies at least \<open>1 / pageSize\<close> above the integer below
  it, which is more than half the spacing of the doubles there, so that it is never
  rounded down to that integer and the ceiling is the exact one; the products
  \<^verbatim>\<open>index * pageSize\<close> and \<^verbatim>\<open>pageSize * (pageCount - 1)\<close> are integers of magnitude at
  most \<^verbatim>\<open>max(total, pageSize)\<close>. So they are computed here on \<^typ>\<open>int\<close>.

  \<^verbatim>\<open>Array.from({ length: pageCount })\<close> makes an array of \<^verbatim>\<open>pageCount\<close> elements and
  raises \<^verbatim>\<open>RangeError\<close> when \<^verbatim>\<open>pageCount\<close> exceeds the greatest length of an array that
  the engine makes. That length is not in the source: it is the parameter \<open>max_length\<close> of
  \<^verbatim>\<open>createPaginationChunks_on\<close>. The language allows \<open>2^32 - 1\<close> at most
  (\<^verbatim>\<open>MAX_ARRAY_LENGTH\<close>); V8, the engine of Node, stops at the greatest length of its
  backing stores, \<open>2^27 - 3\<close> on a 64-bit machine (\<^verbatim>\<open>NODE_MAX_ARRAY_LENGTH\<close>), and
  \<^verbatim>\<open>createPaginationChunks\<close> is the function on that engine, as the client runs it. Below
  the limit of the engine, memory is taken to be unbounded.
\<close>

definition MAX_ARRAY_LENGTH :: int where
  "MAX_ARRAY_LENGTH = 2 ^ 32 - 1"

definition NODE_MAX_ARRAY_LENGTH :: int where
  "NODE_MAX_ARRAY_LENGTH = 2 ^ 27 - 3"

definition createPaginationChunks_on :: "int \<Rightarrow> number \<Rightarrow> number \<Rightarrow> error + page_window list" where
  "createPaginationChunks_on max_length pageSize_arg total_arg =
     (if \<not> isSafeInteger pageSize_arg \<or> number_le pageSize_arg (Num 0) then
        Inl (TypeError ''Option 'pageSize' needs to be a positive safe integer.'')
      else if \<not> isSafeInteger total_arg \<or> number_less total_arg (Num 0) then
        Inl (TypeError ''Option 'total' needs to be a non-negative safe integer.'')
      else
        let p = int_of_number pageSize_arg;
            t = int_of_number total_arg;
            pageCount = \<lceil>(of_int t :: rat) / of_int p\<rceil>;
            lastPageSize = t - p * (pageCount - 1)
        in if pageCount > max_length then Inl (RangeError ''Invalid array length'')
           else Inr (map (\<lambda>index.
                  \<lparr>startAt = int index * p,
                   pageSize = (if int index = pageCount - 1 then lastPageSize else p)\<rparr>)
                [0..<nat pageCount]))"

definition createPaginationChunks :: "number \<Rightarrow> number \<Rightarrow> error + page_window list" where
  "createPaginationChunks pageSize_arg total_arg =
     createPaginationChunks_on NODE_MAX_ARRAY_LENGTH pageSize_arg total_arg"

section \<open>Strings\<close>

text \<open>\<^verbatim>\<open>String(n)\<close> of an integer \<open>n\<close> (of magnitude below \<open>10^21\<close>): its decimal digits.\<close>

definition digit :: "nat \<Rightarrow> char" where
  "digit d = ''0123456789'' ! d"

fun string_of_nat :: "nat \<Rightarrow> string" where
  "string_of_nat n =
     (if n < 10 then [digit n] else string_of_nat (n div 10) @ [digit (n mod 10)])"

declare string_of_nat.simps [simp del]

definition string_of_int :: "int \<Rightarrow> string" where
  "string_of_int i = (if i < 0 then CHR ''-'' # string_of_nat (nat (- i)) else string_of_nat (nat i))"

text \<open>\<^verbatim>\<open>xs.join(sep)\<close> on an array of strings.\<close>

fun join :: "string \<Rightarrow> string list \<Rightarrow> string" where
  "join sep [] = []"
| "join sep [x] = x"
| "join sep (x # y # zs) = x @ sep @ join sep (y # zs)"

section \<open>The response validator\<close>

text \<open>
  What \<^verbatim>\<open>res.json()\<close> yields: a JSON value. An object is the list of its properties;
  \<^verbatim>\<open>obj[key]\<close> is \<^term>\<open>map_of\<close> on it, \<^verbatim>\<open>undefined\<close> (here \<^term>\<open>None\<close>) for a missing key.
\<close>

datatype json =
    JNull
  | JBoolean bool
  | JNumber number
  | JString string
  | JArray "json list"
  | JObject "(string \<times> json) list"

record component_lead =
  accountId :: string
  displayName :: string

record component =
  comp_id :: string
  comp_name :: string
  lead :: "component_lead option"

record issue_component =
  ref_id :: string
  ref_name :: string

record issue_fields =
  components :: "issue_component list"

record issue =
  issue_id :: string
  fields' :: issue_fields

record issue_page =
  data_startAt :: number
  maxResults :: number
  total :: number
  issues :: "issue list"

text \<open>
  The zod schemas, as parsers of a value that may be \<^verbatim>\<open>undefined\<close>; \<^term>\<open>None\<close> as a
  result is a failed validation. \<^verbatim>\<open>z.object\<close> reads the keys of its shape and ignores the
  others, \<^verbatim>\<open>z.number()\<close> refuses \<^verbatim>\<open>NaN\<close>, \<^verbatim>\<open>.optional()\<close> accepts \<^verbatim>\<open>undefined\<close> and
  nothing else beside what the inner schema accepts (so not \<^verbatim>\<open>null\<close>). The issues
  zod lists in its error are not modelled.
\<close>

fun zString :: "json option \<Rightarrow> string option" where
  "zString (Some (JString s)) = Some s"
| "zString _ = None"

fun zNumber :: "json option \<Rightarrow> number option" where
  "zNumber (Some (JNumber n)) = (if n = NaN then None else Some n)"
| "zNumber _ = None"

fun zObject :: "json option \<Rightarrow> (string \<rightharpoonup> json) option" where
  "zObject (Some (JObject kvs)) = Some (map_of kvs)"
| "zObject _ = None"

fun zArray :: "(json option \<Rightarrow> 'a option) \<Rightarrow> json option \<Rightarrow> 'a list option" where
  "zArray element (Some (JArray xs)) = those (map (\<lambda>x. element (Some x)) xs)"
| "zArray element _ = None"

fun zOptional :: "(json option \<Rightarrow> 'a option) \<Rightarrow> json option \<Rightarrow> 'a option option" where
  "zOptional inner None = Some None"
| "zOptional inner (Some x) = map_option Some (inner (Some x))"

definition LeadSchema :: "json option \<Rightarrow> component_lead option" where
  "LeadSchema v = do {
     obj \<leftarrow> zObject v;
     a \<leftarrow> zString (obj ''accountId'');
     d \<leftarrow> zString (obj ''displayName'');
     Some \<lparr>accountId = a, displayName = d\<rparr>
   }"

definition ComponentSchema :: "json option \<Rightarrow> component option" where
  "ComponentSchema v = do {
     obj \<leftarrow> zObject v;
     i \<leftarrow> zString (obj ''id'');
     n \<leftarrow> zString (obj ''name'');
     l \<leftarrow> zOptional LeadSchema (obj ''lead'');
     Some \<lparr>comp_id = i, comp_name = n, lead = l\<rparr>
   }"

definition GetComponentsResponseSchema :: "json option \<Rightarrow> component list option" where
  "GetComponentsResponseSchema = zArray ComponentSchema"

definition IssueComponentSchema :: "json option \<Rightarrow> issue_component option" where
  "IssueComponentSchema v = do {
     obj \<leftarrow> zObject v;
     i \<leftarrow> zString (obj ''id'');
     n \<leftarrow> zString (obj ''name'');
     Some \<lparr>ref_id = i, ref_name = n\<rparr>
   }"

definition IssueFieldsSchema :: "json option \<Rightarrow> issue_fields option" where
  "IssueFieldsSchema v = do {
     obj \<leftarrow> zObject v;
     cs \<leftarrow> zArray IssueComponentSchema (obj ''components'');
     Some \<lparr>components = cs\<rparr>
   }"

definition IssueSchema :: "json option \<Rightarrow> issue option" where
  "IssueSchema v = do {
     obj \<leftarrow> zObject v;
     i \<leftarrow> zString (obj ''id'');
     f \<leftarrow> IssueFieldsSchema (obj ''fields'');
     Some \<lparr>issue_id = i, fields' = f\<rparr>
   }"

definition GetIssuesByComponentsResponseSchema :: "json option \<Rightarrow> issue_page option" where
  "GetIssuesByComponentsResponseSchema v = do {
     obj \<leftarrow> zObject v;
     s \<leftarrow> zNumber (obj ''startAt'');
     m \<leftarrow> zNumber (obj ''maxResults'');
     t \<leftarrow> zNumber (obj ''total'');
     is \<leftarrow> zArray IssueSchema (obj ''issues'');
     Some \<lparr>data_startAt = s, maxResults = m, total = t, issues = is\<rparr>
   }"

text \<open>\<^verbatim>\<open>schema.parse(json)\<close>: the parsed value, or \<^verbatim>\<open>ZodError\<close>.\<close>

definition parse :: "(json option \<Rightarrow> 'a option) \<Rightarrow> json \<Rightarrow> error + 'a" where
  "parse schema j = (case schema (Some j) of None \<Rightarrow> Inl ZodError | Some v \<Rightarrow> Inr v)"

section \<open>The Jira client\<close>

text \<open>
  The network is a parameter: \<^verbatim>\<open>fetch(url)\<close> either fails (no response) or yields a
  response with a status, a status text and a body. The body is \<^term>\<open>None\<close> when it is not
  JSON text, and \<^verbatim>\<open>res.json()\<close> then fails. \<^verbatim>\<open>fetch\<close> reads the URL it is given when it
  is called, so a request is identified with the value its URL has at that moment.
\<close>

record response =
  status :: nat
  statusText :: string
  body :: "json option"

type_synonym fetch = "url_value \<Rightarrow> error + response"

definition res_json :: "response \<Rightarrow> error + json" where
  "res_json res = (case body res of None \<Rightarrow> Inl InvalidJson | Some j \<Rightarrow> Inr j)"

record config =
  baseUrl :: string
  projectId :: string

text \<open>What a call of the client gives: what it returns or raises, and the requests it made,
  in the order it made them.\<close>

record 'a run =
  outcome :: "error + 'a"
  requests :: "url_value list"

definition getComponents :: "config \<Rightarrow> fetch \<Rightarrow> component list run" where
  "getComponents cfg fetch =
     (let url = baseUrl cfg @ ''/rest/api/3/project/'' @ projectId cfg @ ''/components'' in
      \<lparr>outcome =
         (case fetch (UrlString url) of
            Inl e \<Rightarrow> Inl e
          | Inr res \<Rightarrow>
              if status res \<noteq> 200 then
                Inl (JiraResponseError (UrlString url) (status res) (statusText res))
              else
                (case res_json res of
                   Inl e \<Rightarrow> Inl e
                 | Inr json \<Rightarrow> parse GetComponentsResponseSchema json)),
       requests = [UrlString url]\<rparr>)"

text \<open>
  The first URL of \<^verbatim>\<open>getIssuesByComponents\<close>. The base URL is taken to be well formed, as
  the specification has it validated upstream, so that \<^verbatim>\<open>new URL\<close> does not raise.
\<close>

definition initialMaxResults :: string where
  "initialMaxResults = ''10000''"

definition search_url :: "config \<Rightarrow> string list \<Rightarrow> url" where
  "search_url cfg componentIds =
     set_param ''jql''
       (''project = '' @ projectId cfg @ '' AND component IN ('' @ join '', '' componentIds @ '')'')
     (set_param ''fields'' ''id,components''
     (set_param ''validateQuery'' ''strict''
     (set_param ''maxResults'' initialMaxResults
     (set_param ''startAt'' ''0''
       \<lparr>href_base = baseUrl cfg @ ''/rest/api/3/search'', searchParams = []\<rparr>))))"

text \<open>
  The callback given to \<^verbatim>\<open>restIssueBatchesPagination.map\<close> runs, for each window in turn,
  up to its first \<^verbatim>\<open>await\<close>: it writes the window into the one \<^verbatim>\<open>url\<close> object that all
  the callbacks and the first request share, and calls \<^verbatim>\<open>fetch\<close>. \<^term>\<open>send_requests\<close> is
  that part of the loop: from the state of the object and the windows, the state the object
  is left in and the requests made.
\<close>

definition write_window :: "page_window \<Rightarrow> url \<Rightarrow> url" where
  "write_window w u =
     set_param ''maxResults'' (string_of_int (pageSize w))
       (set_param ''startAt'' (string_of_int (startAt w)) u)"

fun send_requests :: "url \<Rightarrow> page_window list \<Rightarrow> url \<times> url list" where
  "send_requests u [] = (u, [])"
| "send_requests u (w # ws) =
     (let u' = write_window w u;
          (u_final, sent) = send_requests u' ws
      in (u_final, u' # sent))"

text \<open>
  The rest of the callback runs when the response of its request has arrived, which is after
  every callback has run its first part: \<open>url_now\<close> is the state of the shared object
  then, and \<open>request\<close> the URL the request was made with.
\<close>

definition page_result :: "fetch \<Rightarrow> url \<Rightarrow> url \<Rightarrow> error + issue list" where
  "page_result fetch url_now request =
     (case fetch (UrlObject request) of
        Inl e \<Rightarrow> Inl e
      | Inr res \<Rightarrow>
          if status res \<noteq> 200 then
            Inl (JiraResponseError (UrlObject url_now) (status res) (statusText res))
          else
            (case res_json res of
               Inl e \<Rightarrow> Inl e
             | Inr json \<Rightarrow>
                 (case parse GetIssuesByComponentsResponseSchema json of
                    Inl e \<Rightarrow> Inl e
                  | Inr data \<Rightarrow> Inr (issues data))))"

text \<open>
  \<^verbatim>\<open>Promise.all\<close> on promises that settle with the given results, the promise of index \<open>i\<close>
  at time \<open>settled_at i\<close> (of two that settle at the same time the one of lower index is
  first): the values in the order of the promises when none is rejected, and otherwise
  the error of the promise that is rejected first.
\<close>

definition promise_all :: "(nat \<Rightarrow> nat) \<Rightarrow> (error + 'a) list \<Rightarrow> error + 'a list" where
  "promise_all settled_at results =
     (let rejections = [(i, e). (i, Inl e) \<leftarrow> enumerate 0 results] in
      if rejections = [] then Inr [v. Inr v \<leftarrow> results]
      else Inl (snd (arg_min_list (\<lambda>(i, e). settled_at i) rejections)))"

definition getIssuesByComponents ::
  "config \<Rightarrow> fetch \<Rightarrow> (nat \<Rightarrow> nat) \<Rightarrow> string list \<Rightarrow> issue list run" where
  "getIssuesByComponents cfg fetch settled_at componentIds =
     (let url = search_url cfg componentIds in
      case fetch (UrlObject url) of
        Inl e \<Rightarrow> \<lparr>outcome = Inl e, requests = [UrlObject url]\<rparr>
      | Inr firstRes \<Rightarrow>
          if status firstRes \<noteq> 200 then
            \<lparr>outcome = Inl (JiraResponseError (UrlObject url) (status firstRes) (statusText firstRes)),
             requests = [UrlObject url]\<rparr>
          else
            (case res_json firstRes of
               Inl e \<Rightarrow> \<lparr>outcome = Inl e, requests = [UrlObject url]\<rparr>
             | Inr firstJson \<Rightarrow>
                 (case parse GetIssuesByComponentsResponseSchema firstJson of
                    Inl e \<Rightarrow> \<lparr>outcome = Inl e, requests = [UrlObject url]\<rparr>
                  | Inr firstData \<Rightarrow>
                      (case createPaginationChunks (maxResults firstData) (total firstData) of
                         Inl e \<Rightarrow> \<lparr>outcome = Inl e, requests = [UrlObject url]\<rparr>
                       | Inr chunks \<Rightarrow>
                           let firstIssueBatch = issues firstData;
                               restIssueBatchesPagination = drop 1 chunks;
                               (url_now, sent) = send_requests url restIssueBatchesPagination
                           in \<lparr>outcome =
                                 (case promise_all settled_at (map (page_result fetch url_now) sent) of
                                    Inl e \<Rightarrow> Inl e
                                  | Inr restIssueBatches \<Rightarrow>
                                      Inr (concat (firstIssueBatch # restIssueBatches))),
                               requests = UrlObject url # map UrlObject sent\<rparr>))))"

text \<open>\<^verbatim>\<open>url.searchParams.get(k)\<close> on the URL of a request.\<close>

fun searchParams_get :: "string \<Rightarrow> url_value \<Rightarrow> string option" where
  "searchParams_get k (UrlObject u) = map_of (searchParams u) k"
| "searchParams_get k (UrlString s) = None"

section \<open>The report\<close>

record report_entry =
  entry_id :: string
  entry_name :: string
  entry_issues :: nat

datatype api_call = Call_getComponents | Call_getIssuesByComponents "string list"

record report_run =
  report :: "error + report_entry list"
  api_calls :: "api_call list"
  http_requests :: "url_value list"

text \<open>The two nested iterations that fill \<^verbatim>\<open>issuesCountByComponentId\<close>.\<close>

definition count_component :: "(string \<rightharpoonup> nat) \<Rightarrow> issue_component \<Rightarrow> (string \<rightharpoonup> nat)" where
  "count_component m c = m(ref_id c \<mapsto> (case m (ref_id c) of None \<Rightarrow> 0 | Some n \<Rightarrow> n) + 1)"

definition count_issue :: "(string \<rightharpoonup> nat) \<Rightarrow> issue \<Rightarrow> (string \<rightharpoonup> nat)" where
  "count_issue m i = foldl count_component m (components (fields' i))"

definition count_issues :: "issue list \<Rightarrow> (string \<rightharpoonup> nat)" where
  "count_issues is = foldl count_issue Map.empty is"

definition getJiraComponentsWithoutLead :: "config \<Rightarrow> fetch \<Rightarrow> (nat \<Rightarrow> nat) \<Rightarrow> report_run" where
  "getJiraComponentsWithoutLead cfg fetch settled_at =
     (let c = getComponents cfg fetch in
      case outcome c of
        Inl e \<Rightarrow> \<lparr>report = Inl e, api_calls = [Call_getComponents], http_requests = requests c\<rparr>
      | Inr allComponents \<Rightarrow>
          let componentsWithoutLead = filter (\<lambda>component. lead component = None) allComponents in
          if length componentsWithoutLead = 0 then
            \<lparr>report = Inr [], api_calls = [Call_getComponents], http_requests = requests c\<rparr>
          else
            let componentIds = map comp_id componentsWithoutLead;
                i = getIssuesByComponents cfg fetch settled_at componentIds
            in \<lparr>report =
                  (case outcome i of
                     Inl e \<Rightarrow> Inl e
                   | Inr foundIssues \<Rightarrow>
                       let issuesCountByComponentId = count_issues foundIssues in
                       Inr (map (\<lambda>component.
                              \<lparr>entry_id = comp_id component,
                               entry_name = comp_name component,
                               entry_issues =
                                 (case issuesCountByComponentId (comp_id component) of
                                    None \<Rightarrow> 0 | Some n \<Rightarrow> n)\<rparr>)
                            componentsWithoutLead)),
                api_calls = [Call_getComponents, Call_getIssuesByComponents componentIds],
                http_requests = requests c @ requests i\<rparr>)"

section \<open>Vocabulary of the statements\<close>

text \<open>The URL of the request of the components.\<close>

definition components_url :: "config \<Rightarrow> string" where
  "components_url cfg = baseUrl cfg @ ''/rest/api/3/project/'' @ projectId cfg @ ''/components''"

text \<open>The URL of the request for a window: the first URL with the window written into it.\<close>

definition window_request :: "config \<Rightarrow> string list \<Rightarrow> page_window \<Rightarrow> url" where
  "window_request cfg componentIds w = write_window w (search_url cfg componentIds)"

text \<open>The state the shared URL object is in once the requests for the windows are made.\<close>

definition url_after :: "config \<Rightarrow> string list \<Rightarrow> page_window list \<Rightarrow> url" where
  "url_after cfg componentIds ws =
     (if ws = [] then search_url cfg componentIds else window_request cfg componentIds (last ws))"

text \<open>The page a search request is answered with, when the answer is a response of
  status 200 whose body passes the validation.\<close>

definition page_of :: "fetch \<Rightarrow> url \<Rightarrow> issue_page option" where
  "page_of fetch request =
     (case fetch (UrlObject request) of
        Inl e \<Rightarrow> None
      | Inr res \<Rightarrow>
          if status res = 200 then
            (case body res of None \<Rightarrow> None | Some j \<Rightarrow> GetIssuesByComponentsResponseSchema (Some j))
          else None)"

text \<open>How often a component id is referred to by an issue, and whether it is at all.\<close>

definition references :: "string \<Rightarrow> issue \<Rightarrow> nat" where
  "references cid i = count_list (map ref_id (components (fields' i))) cid"

definition refers_to :: "string \<Rightarrow> issue \<Rightarrow> bool" where
  "refers_to cid i = (cid \<in> set (map ref_id (components (fields' i))))"

section \<open>Servers of the test suite\<close>

text \<open>
  The configuration and the mocked servers of the tests, with a fixture of eight issues.
  \<^verbatim>\<open>Number(s)\<close> is needed on strings of digits only.
\<close>

definition nat_of_string :: "string \<Rightarrow> nat" where
  "nat_of_string s = foldl (\<lambda>n c. 10 * n + (of_char c - 48)) 0 s"

definition test_config :: config where
  "test_config = \<lparr>baseUrl = ''https://xxx.atlassian.net'', projectId = ''XYZ''\<rparr>"

definition component_ref_json :: "string \<Rightarrow> json" where
  "component_ref_json c = JObject [(''id'', JString c), (''name'', JString (''name of '' @ c))]"

definition issue_json :: "string \<Rightarrow> string list \<Rightarrow> json" where
  "issue_json i cs =
     JObject [(''id'', JString i), (''key'', JString (''XYZ-'' @ i)),
       (''fields'', JObject [(''components'', JArray (map component_ref_json cs))])]"

definition page_json :: "nat \<Rightarrow> nat \<Rightarrow> nat \<Rightarrow> json list \<Rightarrow> json" where
  "page_json s m t is =
     JObject [(''expand'', JString ''schema,names''), (''startAt'', JNumber (Num (of_nat s))),
       (''maxResults'', JNumber (Num (of_nat m))), (''total'', JNumber (Num (of_nat t))),
       (''issues'', JArray is)]"

definition fixture_issues :: "json list" where
  "fixture_issues =
     [issue_json ''1'' [''a''], issue_json ''2'' [''a'', ''b''], issue_json ''3'' [],
      issue_json ''4'' [''c''], issue_json ''5'' [''b''], issue_json ''6'' [''a''],
      issue_json ''7'' [''c'', ''a''], issue_json ''8'' [''b'']]"

definition parsed_fixture :: "issue list" where
  "parsed_fixture =
     (case zArray IssueSchema (Some (JArray fixture_issues)) of None \<Rightarrow> [] | Some is \<Rightarrow> is)"

definition ok :: "json \<Rightarrow> error + response" where
  "ok j = Inr \<lparr>status = 200, statusText = ''OK'', body = Some j\<rparr>"

definition bad_request :: "error + response" where
  "bad_request = Inr \<lparr>status = 400, statusText = ''Bad Request'', body = None\<rparr>"

definition requested :: "string \<Rightarrow> url_value \<Rightarrow> nat" where
  "requested k u = (case searchParams_get k u of None \<Rightarrow> 0 | Some s \<Rightarrow> nat_of_string s)"

text \<open>The server of the test of paginated responses: it serves at most \<open>limit\<close> issues of
  the fixture from \<^verbatim>\<open>startAt\<close> on, and reports \<open>limit\<close> as \<^verbatim>\<open>maxResults\<close>.\<close>

definition paginated_server :: "json list \<Rightarrow> nat \<Rightarrow> fetch" where
  "paginated_server is limit u =
     (let startAt = requested ''startAt'' u;
          maxResults = requested ''maxResults'' u;
          clampedMaxResults = min limit maxResults
      in ok (page_json startAt limit (length is)
           (map snd (filter (\<lambda>(index, issue). index \<ge> startAt \<and> index < startAt + clampedMaxResults)
              (enumerate 0 is)))))"


text \<open>Variants: a server that refuses the one page at \<open>refused\<close>, and one that moreover
  answers the page at \<open>garbled\<close> with the body of the validation tests.\<close>

definition refusing_one :: "json list \<Rightarrow> nat \<Rightarrow> nat \<Rightarrow> fetch" where
  "refusing_one is limit refused u =
     (if requested ''startAt'' u = refused then bad_request else paginated_server is limit u)"


text \<open>A server that answers the first search with the given \<^verbatim>\<open>maxResults\<close> and
  \<^verbatim>\<open>total\<close> and no issue.\<close>

definition reporting_server :: "number \<Rightarrow> number \<Rightarrow> fetch" where
  "reporting_server m t u =
     ok (JObject [(''startAt'', JNumber (Num 0)), (''maxResults'', JNumber m),
           (''total'', JNumber t), (''issues'', JArray [])])"

text \<open>A tracker: one answer to the request of the components, and a server of issues.\<close>

definition tracker :: "error + response \<Rightarrow> fetch \<Rightarrow> fetch" where
  "tracker components_answer search u =
     (case u of UrlString s \<Rightarrow> components_answer | UrlObject _ \<Rightarrow> search u)"

definition component_json :: "string \<Rightarrow> string \<Rightarrow> bool \<Rightarrow> json" where
  "component_json i n led =
     JObject ([(''id'', JString i), (''name'', JString n), (''description'', JNull)] @
       (if led then [(''lead'', JObject [(''accountId'', JString ''5an''),
          (''displayName'', JString ''Ann''), (''active'', JBoolean True)])] else []))"

section \<open>Properties of the pagination planner\<close>

lemma ceiling_quotient_bounds:
  fixes p t :: int
  assumes "0 < p"
  shows "p * (\<lceil>(of_int t :: rat) / of_int p\<rceil> - 1) < t"
    and "t \<le> p * \<lceil>(of_int t :: rat) / of_int p\<rceil>"
proof -
  define d m where "d = (- t) div p" and "m = (- t) mod p"
  have n: "\<lceil>(of_int t :: rat) / of_int p\<rceil> = - d"
    by (simp add: d_def ceiling_divide_eq_div)
  have "- t = p * d + m"
    by (simp add: d_def m_def)
  moreover have "0 \<le> m" and "m < p"
    using assms by (simp_all add: m_def)
  ultimately show "p * (\<lceil>(of_int t :: rat) / of_int p\<rceil> - 1) < t"
    and "t \<le> p * \<lceil>(of_int t :: rat) / of_int p\<rceil>"
    by (simp_all add: n right_diff_distrib)
qed

lemma ceiling_quotient_nonneg:
  fixes p t :: int
  assumes "0 < p" "0 \<le> t"
  shows "0 \<le> \<lceil>(of_int t :: rat) / of_int p\<rceil>"
proof -
  have "(0::rat) \<le> of_int t / of_int p" using assms by simp
  then have "(- 1::rat) < of_int t / of_int p" by linarith
  then show ?thesis by simp
qed

lemma ceiling_quotient_zero:
  fixes p t :: int
  assumes "0 < p" "0 \<le> t"
  shows "\<lceil>(of_int t :: rat) / of_int p\<rceil> = 0 \<longleftrightarrow> t = 0"
proof
  assume "\<lceil>(of_int t :: rat) / of_int p\<rceil> = 0"
  with ceiling_quotient_bounds(2) [OF assms(1), of t] assms(2) show "t = 0" by simp
next
  assume "t = 0" then show "\<lceil>(of_int t :: rat) / of_int p\<rceil> = 0" by simp
qed

lemma createPaginationChunks_safe:
  assumes "0 < p" "p \<le> MAX_SAFE_INTEGER" "0 \<le> t" "t \<le> MAX_SAFE_INTEGER"
  shows "createPaginationChunks_on max_length (Num (of_int p)) (Num (of_int t)) =
     (if \<lceil>(of_int t :: rat) / of_int p\<rceil> > max_length then Inl (RangeError ''Invalid array length'')
      else Inr (map (\<lambda>index. \<lparr>startAt = int index * p,
                   pageSize = (if int index = \<lceil>(of_int t :: rat) / of_int p\<rceil> - 1
                               then t - p * (\<lceil>(of_int t :: rat) / of_int p\<rceil> - 1) else p)\<rparr>)
                [0..<nat \<lceil>(of_int t :: rat) / of_int p\<rceil>]))"
  using assms by (simp add: createPaginationChunks_on_def Let_def)

lemma sum_list_windows:
  fixes f :: "nat \<Rightarrow> int"
  shows "sum_list (map f [0..<n]) = (\<Sum>i<n. f i)"
  by (induction n) simp_all

text \<open>
  Claim C2, amended. On an engine that makes arrays of at most \<open>max_length\<close> elements,
  for every positive safe integer \<open>p\<close> and non-negative safe integer \<open>t\<close> for which the
  number of windows, \<open>\<lceil>t / p\<rceil>\<close>, is at most \<open>max_length\<close>, the planner returns windows
  that tile \<open>[0, t)\<close>: there are
  \<open>\<lceil>t / p\<rceil>\<close> of them, window \<open>i\<close> starts at \<open>i * p\<close>, every window but the last has size
  \<open>p\<close>, the last has size \<open>t - p * (\<lceil>t / p\<rceil> - 1)\<close>, every offset of \<open>[0, t)\<close> lies in
  exactly one window, every window is non-empty and lies within \<open>[0, t)\<close>, the sizes sum
  to \<open>t\<close>, and there is no window when \<open>t = 0\<close>.
\<close>

theorem createPaginationChunks_tiles:
  fixes p t :: int
  assumes "0 < p" and "p \<le> MAX_SAFE_INTEGER" and "0 \<le> t" and "t \<le> MAX_SAFE_INTEGER"
    and "\<lceil>(of_int t :: rat) / of_int p\<rceil> \<le> max_length"
  shows "\<exists>ws. createPaginationChunks_on max_length (Num (of_int p)) (Num (of_int t)) = Inr ws
    \<and> int (length ws) = \<lceil>(of_int t :: rat) / of_int p\<rceil>
    \<and> (\<forall>i < length ws. startAt (ws ! i) = int i * p)
    \<and> (\<forall>i. Suc i < length ws \<longrightarrow> pageSize (ws ! i) = p)
    \<and> (ws \<noteq> [] \<longrightarrow> pageSize (last ws) = t - p * (\<lceil>(of_int t :: rat) / of_int p\<rceil> - 1))
    \<and> (\<forall>x. 0 \<le> x \<and> x < t \<longrightarrow>
          (\<exists>!i. i < length ws \<and> startAt (ws ! i) \<le> x \<and> x < startAt (ws ! i) + pageSize (ws ! i)))
    \<and> (\<forall>i < length ws. 0 < pageSize (ws ! i) \<and> 0 \<le> startAt (ws ! i)
          \<and> startAt (ws ! i) + pageSize (ws ! i) \<le> t)
    \<and> sum_list (map pageSize ws) = t
    \<and> (t = 0 \<longrightarrow> ws = [])"
proof -
  define n where "n = \<lceil>(of_int t :: rat) / of_int p\<rceil>"
  define w where "w = (\<lambda>index::nat. \<lparr>startAt = int index * p,
      pageSize = (if int index = n - 1 then t - p * (n - 1) else p)\<rparr>)"
  define ws where "ws = map w [0..<nat n]"
  have lo: "p * (n - 1) < t" and hi: "t \<le> p * n" and n0: "0 \<le> n"
    and nz: "n = 0 \<longleftrightarrow> t = 0"
    using ceiling_quotient_bounds [OF assms(1), of t] ceiling_quotient_nonneg [OF assms(1,3)]
      ceiling_quotient_zero [OF assms(1,3)]
    by (simp_all add: n_def)
  have run: "createPaginationChunks_on max_length (Num (of_int p)) (Num (of_int t)) = Inr ws"
    using assms(5) by (simp add: createPaginationChunks_safe [OF assms(1-4)] ws_def w_def n_def)
  have len: "int (length ws) = n"
    using n0 by (simp add: ws_def)
  have nth: "ws ! i = w i" if "i < length ws" for i
    using that by (simp add: ws_def)
  have start: "\<forall>i < length ws. startAt (ws ! i) = int i * p"
    by (simp add: nth w_def)
  have size_inner: "\<forall>i. Suc i < length ws \<longrightarrow> pageSize (ws ! i) = p"
    using len by (auto simp: nth w_def)
  have size_last: "ws \<noteq> [] \<longrightarrow> pageSize (last ws) = t - p * (n - 1)"
  proof
    assume "ws \<noteq> []"
    then obtain m where m: "length ws = Suc m" by (cases ws) simp_all
    then have "int m = n - 1" using len by simp
    then show "pageSize (last ws) = t - p * (n - 1)"
      using m \<open>ws \<noteq> []\<close> by (simp add: last_conv_nth nth w_def)
  qed
  have size_le: "pageSize (w i) \<le> p" and size_pos: "0 < pageSize (w i)"
    and inside: "int i * p + pageSize (w i) \<le> t" if "int i < n" for i
  proof -
    have "int i * p \<le> (n - 1) * p"
      using that assms(1) by (simp only: mult_le_cancel_right) simp
    then have le: "int i * p \<le> p * (n - 1)" by (simp add: mult.commute)
    have "int i + 1 \<le> n - 1" if "int i \<noteq> n - 1"
      using that \<open>int i < n\<close> by simp
    then have "(int i + 1) * p \<le> (n - 1) * p" if "int i \<noteq> n - 1"
      using that assms(1) by (simp only: mult_le_cancel_right) simp
    then have inner: "int i * p + p \<le> p * (n - 1)" if "int i \<noteq> n - 1"
      using that by (simp add: algebra_simps)
    have pn: "p * n = p * (n - 1) + p" by (simp add: algebra_simps)
    show "pageSize (w i) \<le> p" using hi pn by (simp add: w_def)
    show "0 < pageSize (w i)" using lo assms(1) by (simp add: w_def)
    show "int i * p + pageSize (w i) \<le> t" using inner lo le by (auto simp: w_def)
  qed
  have tiles: "\<exists>!i. i < length ws \<and> startAt (ws ! i) \<le> x \<and> x < startAt (ws ! i) + pageSize (ws ! i)"
    if x: "0 \<le> x" "x < t" for x
  proof -
    define k where "k = nat (x div p)"
    have d0: "0 \<le> x div p" using x(1) assms(1) by (simp add: pos_imp_zdiv_nonneg_iff)
    have k: "int k = x div p" using d0 by (simp add: k_def)
    define r where "r = x mod p"
    have xr: "x = int k * p + r" by (simp add: k r_def)
    have r: "0 \<le> r" "r < p" using assms(1) by (simp_all add: r_def)
    have xl: "int k * p \<le> x" and xu: "x < int k * p + p"
      using xr r by linarith+
    have "int k * p < n * p" using xl x(2) hi by (simp add: mult.commute)
    then have kn: "int k < n" using assms(1) by (simp only: mult_less_cancel_right)
    then have klen: "k < length ws" using len by simp
    have here: "startAt (ws ! k) \<le> x \<and> x < startAt (ws ! k) + pageSize (ws ! k)"
    proof (cases "int k = n - 1")
      case True
      then show ?thesis using xl x(2) klen by (simp add: nth w_def mult.commute)
    next
      case False
      then show ?thesis using xl xu klen by (simp add: nth w_def)
    qed
    have only: "j = k"
      if j: "j < length ws" "startAt (ws ! j) \<le> x" "x < startAt (ws ! j) + pageSize (ws ! j)" for j
    proof -
      have "int j < n" using j(1) len by simp
      from size_le [OF this] j have "int j * p \<le> x" and "x < int j * p + p"
        by (simp_all add: nth w_def split: if_splits)
      then have "x = p * int j + (x - int j * p)" and "0 \<le> x - int j * p" and "x - int j * p < p"
        by (simp_all add: mult.commute)
      then have "x div p = int j" by (rule int_div_pos_eq)
      then show "j = k" using k by simp
    qed
    show ?thesis
      using klen here only by blast
  qed
  have all_inside: "\<forall>i < length ws. 0 < pageSize (ws ! i) \<and> 0 \<le> startAt (ws ! i)
          \<and> startAt (ws ! i) + pageSize (ws ! i) \<le> t"
  proof (intro allI impI)
    fix i assume i: "i < length ws"
    then have "int i < n" using len by simp
    from size_pos [OF this] inside [OF this] i assms(1)
    show "0 < pageSize (ws ! i) \<and> 0 \<le> startAt (ws ! i)
          \<and> startAt (ws ! i) + pageSize (ws ! i) \<le> t"
      by (simp add: nth w_def)
  qed
  have total: "sum_list (map pageSize ws) = t"
  proof (cases "nat n")
    case 0
    then show ?thesis using n0 nz by (simp add: ws_def)
  next
    case (Suc m)
    then have m: "int m = n - 1" using n0 by simp
    have "sum_list (map pageSize ws) = (\<Sum>i<Suc m. pageSize (w i))"
      by (simp add: ws_def Suc comp_def sum_list_windows del: upt_Suc)
    also have "\<dots> = (\<Sum>i<m. pageSize (w i)) + pageSize (w m)" by simp
    also have "(\<Sum>i<m. pageSize (w i)) = (\<Sum>i<m. p)"
      by (rule sum.cong) (simp_all add: w_def m [symmetric])
    also have "\<dots> = int m * p" by simp
    also have "pageSize (w m) = t - p * (n - 1)" by (simp add: w_def m)
    finally show ?thesis by (simp add: m mult.commute)
  qed
  have empty: "t = 0 \<longrightarrow> ws = []"
    using nz by (auto simp: ws_def)
  have tiles_all: "\<forall>x. 0 \<le> x \<and> x < t \<longrightarrow>
          (\<exists>!i. i < length ws \<and> startAt (ws ! i) \<le> x \<and> x < startAt (ws ! i) + pageSize (ws ! i))"
    using tiles by simp
  show ?thesis
    unfolding n_def [symmetric]
    by (rule exI [of _ ws])
      (intro conjI run len start size_inner size_last tiles_all all_inside total empty)
qed


text \<open>The windows of the test with page size 10 and total 25, on Node.\<close>

theorem createPaginationChunks_tiles_witness:
  "(0::int) < 10 \<and> (10::int) \<le> MAX_SAFE_INTEGER \<and> (0::int) \<le> 25 \<and> (25::int) \<le> MAX_SAFE_INTEGER
   \<and> \<lceil>(of_int 25 :: rat) / of_int 10\<rceil> \<le> NODE_MAX_ARRAY_LENGTH
   \<and> createPaginationChunks (Num 10) (Num 25) =
        Inr [\<lparr>startAt = 0, pageSize = 10\<rparr>, \<lparr>startAt = 10, pageSize = 10\<rparr>, \<lparr>startAt = 20, pageSize = 5\<rparr>]
   \<and> (\<exists>ws. createPaginationChunks_on NODE_MAX_ARRAY_LENGTH (Num 10) (Num 25) = Inr ws
        \<and> sum_list (map pageSize ws) = 25
        \<and> (\<forall>x. 0 \<le> x \<and> x < 25 \<longrightarrow>
          (\<exists>!i. i < length ws \<and> startAt (ws ! i) \<le> x \<and> x < startAt (ws ! i) + pageSize (ws ! i))))"
proof -
  have h: "(0::int) < 10" "(10::int) \<le> MAX_SAFE_INTEGER" "(0::int) \<le> 25" "(25::int) \<le> MAX_SAFE_INTEGER"
    "\<lceil>(of_int 25 :: rat) / of_int 10\<rceil> \<le> NODE_MAX_ARRAY_LENGTH"
    by (simp_all add: MAX_SAFE_INTEGER_def NODE_MAX_ARRAY_LENGTH_def)
  have run: "createPaginationChunks (Num 10) (Num 25) =
        Inr [\<lparr>startAt = 0, pageSize = 10\<rparr>, \<lparr>startAt = 10, pageSize = 10\<rparr>, \<lparr>startAt = 20, pageSize = 5\<rparr>]"
    by code_simp
  from createPaginationChunks_tiles [OF h] obtain ws
    where "createPaginationChunks_on NODE_MAX_ARRAY_LENGTH (Num (of_int 10)) (Num (of_int 25)) = Inr ws"
      and "sum_list (map pageSize ws) = 25"
      and "\<forall>x. 0 \<le> x \<and> x < 25 \<longrightarrow>
          (\<exists>!i. i < length ws \<and> startAt (ws ! i) \<le> x \<and> x < startAt (ws ! i) + pageSize (ws ! i))"
    by (elim exE conjE)
  then have "\<exists>ws. createPaginationChunks_on NODE_MAX_ARRAY_LENGTH (Num 10) (Num 25) = Inr ws
        \<and> sum_list (map pageSize ws) = 25
        \<and> (\<forall>x. 0 \<le> x \<and> x < 25 \<longrightarrow>
          (\<exists>!i. i < length ws \<and> startAt (ws ! i) \<le> x \<and> x < startAt (ws ! i) + pageSize (ws ! i)))"
    by (intro exI [of _ ws]) simp
  with h run show ?thesis by (simp only: simp_thms)
qed

text \<open>
  Claim C2 as stated, for every positive safe integer page size and non-negative safe
  integer total, fails where more windows are needed than the engine makes array elements:
  with page size 1 and total \<open>2^32\<close> the planner raises \<^verbatim>\<open>RangeError\<close> and returns no
  windows, on the greatest limit that the language allows an engine and on Node.
\<close>

theorem createPaginationChunks_tiles_counterexample:
  "isSafeInteger (Num 1) \<and> number_less (Num 0) (Num 1)
   \<and> isSafeInteger (Num 4294967296) \<and> number_le (Num 0) (Num 4294967296)
   \<and> createPaginationChunks_on MAX_ARRAY_LENGTH (Num 1) (Num 4294967296)
       = Inl (RangeError ''Invalid array length'')
   \<and> createPaginationChunks (Num 1) (Num 4294967296) = Inl (RangeError ''Invalid array length'')"
  by (simp add: createPaginationChunks_def createPaginationChunks_on_def MAX_SAFE_INTEGER_def
      MAX_ARRAY_LENGTH_def NODE_MAX_ARRAY_LENGTH_def)

lemma isSafeInteger_cases:
  assumes "isSafeInteger x"
  obtains i where "x = Num (of_int i)" and "\<bar>i\<bar> \<le> MAX_SAFE_INTEGER"
  using assms by (cases x) auto




section \<open>Properties of \<^verbatim>\<open>getComponents\<close>\<close>

lemma those_nth:
  "those (map f xs) = Some ys \<Longrightarrow> length ys = length xs \<and> (\<forall>i < length xs. f (xs ! i) = Some (ys ! i))"
proof (induction xs arbitrary: ys)
  case Nil
  then show ?case by simp
next
  case (Cons x xs)
  then obtain y ys' where y: "f x = Some y" and ys': "those (map f xs) = Some ys'" and ys: "ys = y # ys'"
    by (auto split: option.splits)
  from Cons.IH [OF ys'] y ys show ?case
    by (auto simp: nth_Cons split: nat.splits)
qed

lemma getComponents_outcome:
  "outcome (getComponents cfg fetch) =
     (case fetch (UrlString (components_url cfg)) of
        Inl e \<Rightarrow> Inl e
      | Inr res \<Rightarrow>
          if status res \<noteq> 200 then
            Inl (JiraResponseError (UrlString (components_url cfg)) (status res) (statusText res))
          else
            (case body res of
               None \<Rightarrow> Inl InvalidJson
             | Some j \<Rightarrow>
                 (case GetComponentsResponseSchema (Some j) of
                    None \<Rightarrow> Inl ZodError
                  | Some cs \<Rightarrow> Inr cs)))"
  by (simp add: getComponents_def components_url_def res_json_def parse_def Let_def
      split: sum.splits option.splits)

lemma getComponents_requests:
  "requests (getComponents cfg fetch) = [UrlString (components_url cfg)]"
  by (simp add: getComponents_def components_url_def Let_def)

lemma getComponents_raises:
  assumes "fetch (UrlString (components_url cfg)) = Inr res"
  shows "(status res \<noteq> 200 \<longrightarrow>
            outcome (getComponents cfg fetch) =
              Inl (JiraResponseError (UrlString (components_url cfg)) (status res) (statusText res)))
    \<and> (status res = 200 \<longrightarrow>
          (\<forall>j. body res = Some j \<and> GetComponentsResponseSchema (Some j) = None \<longrightarrow>
             outcome (getComponents cfg fetch) = Inl ZodError)
        \<and> (body res = None \<longrightarrow> outcome (getComponents cfg fetch) = Inl InvalidJson))"
  using assms by (simp add: getComponents_outcome)

text \<open>
  Claim C5 does not hold of the code. A response of status 400 makes \<^verbatim>\<open>getComponents\<close>
  raise \<^verbatim>\<open>JiraResponseError\<close> with the URL, the status and the status text, and the body
  \<^verbatim>\<open>{ "abc": "xyz" }\<close> makes it raise \<^verbatim>\<open>ZodError\<close>, as the claim and the tests have it. But
  a response of status 200 whose body is not JSON, which does not match the shape of the
  component list either, makes it raise the error of \<^verbatim>\<open>res.json()\<close>: neither of the two
  errors that the function declares.
\<close>

theorem getComponents_body_not_json:
  "outcome (getComponents test_config
      (\<lambda>u. Inr \<lparr>status = 200, statusText = ''OK'', body = None\<rparr>)) = Inl InvalidJson
   \<and> outcome (getComponents test_config (tracker bad_request (paginated_server fixture_issues 2))) =
     Inl (JiraResponseError (UrlString ''https://xxx.atlassian.net/rest/api/3/project/XYZ/components'')
       400 ''Bad Request'')
   \<and> GetComponentsResponseSchema (Some (JObject [(''abc'', JString ''xyz'')])) = None
   \<and> outcome (getComponents test_config
        (tracker (ok (JObject [(''abc'', JString ''xyz'')])) (paginated_server fixture_issues 2))) =
     Inl ZodError"
  by (simp add: getComponents_outcome tracker_def bad_request_def ok_def components_url_def
      test_config_def GetComponentsResponseSchema_def)

section \<open>Requests, pages and \<^verbatim>\<open>Promise.all\<close>\<close>

lemma search_url_params:
  "search_url cfg ids =
     \<lparr>href_base = baseUrl cfg @ ''/rest/api/3/search'',
      searchParams = [(''startAt'', ''0''), (''maxResults'', ''10000''), (''validateQuery'', ''strict''),
        (''fields'', ''id,components''),
        (''jql'', ''project = '' @ projectId cfg @ '' AND component IN ('' @ join '', '' ids @ '')'')]\<rparr>"
  by (simp add: search_url_def set_param_def initialMaxResults_def)

lemma window_request_params:
  "window_request cfg ids w =
     \<lparr>href_base = baseUrl cfg @ ''/rest/api/3/search'',
      searchParams = [(''startAt'', string_of_int (startAt w)), (''maxResults'', string_of_int (pageSize w)),
        (''validateQuery'', ''strict''), (''fields'', ''id,components''),
        (''jql'', ''project = '' @ projectId cfg @ '' AND component IN ('' @ join '', '' ids @ '')'')]\<rparr>"
  by (simp add: window_request_def write_window_def search_url_params set_param_def)

lemma write_window_again:
  "write_window w (window_request cfg ids w') = window_request cfg ids w"
  by (simp add: window_request_params write_window_def set_param_def)

lemma write_window_first:
  "write_window w (search_url cfg ids) = window_request cfg ids w"
  by (simp add: window_request_def)

lemma send_requests_windows:
  "send_requests (window_request cfg ids w') ws =
     (if ws = [] then window_request cfg ids w' else window_request cfg ids (last ws),
      map (window_request cfg ids) ws)"
  by (induction ws arbitrary: w') (simp_all add: write_window_again Let_def)

lemma send_requests_search_url:
  "send_requests (search_url cfg ids) ws =
     (if ws = [] then search_url cfg ids else window_request cfg ids (last ws),
      map (window_request cfg ids) ws)"
  by (cases ws) (simp_all add: write_window_first send_requests_windows Let_def)

lemma rejections_set:
  "set [(i, e). (i, Inl e) \<leftarrow> enumerate 0 results] =
     {(i, e). i < length results \<and> results ! i = Inl e}"
  by (auto simp: in_set_enumerate_eq split: sum.splits)

lemma fulfilled_values:
  "\<forall>r \<in> set results. \<not> isl r \<Longrightarrow> [v. Inr v \<leftarrow> results] = map projr results"
  by (induction results) (auto split: sum.splits)

lemma promise_all_fulfilled:
  assumes "\<forall>r \<in> set results. \<not> isl r"
  shows "promise_all settled_at results = Inr (map projr results)"
proof -
  have "set [(i, e). (i, Inl e) \<leftarrow> enumerate 0 results] = {}"
    using assms unfolding rejections_set by (auto dest!: nth_mem)
  then have "[(i, e). (i, Inl e) \<leftarrow> enumerate 0 results] = []"
    by (simp only: set_empty)
  then show ?thesis
    using assms by (simp add: promise_all_def fulfilled_values)
qed



lemma page_of_SomeD:
  assumes "page_of fetch r = Some d"
  obtains res j where "fetch (UrlObject r) = Inr res" and "status res = 200" and "body res = Some j"
    and "GetIssuesByComponentsResponseSchema (Some j) = Some d"
  using assms unfolding page_of_def by (auto split: sum.splits if_splits option.splits)

lemma page_result_ok:
  assumes "page_of fetch r = Some d"
  shows "page_result fetch u r = Inr (issues d)"
proof -
  from assms obtain res j where "fetch (UrlObject r) = Inr res" "status res = 200" "body res = Some j"
    "GetIssuesByComponentsResponseSchema (Some j) = Some d"
    by (rule page_of_SomeD)
  then show ?thesis by (simp add: page_result_def res_json_def parse_def)
qed


lemma page_result_Inr:
  assumes "page_result fetch u r = Inr b"
  shows "\<exists>d. page_of fetch r = Some d \<and> issues d = b"
  using assms unfolding page_of_def page_result_def res_json_def parse_def
  by (auto split: sum.splits if_splits option.splits)



lemma getIssuesByComponents_pages:
  assumes "page_of fetch (search_url cfg ids) = Some d"
    and "createPaginationChunks (maxResults d) (total d) = Inr chunks"
  shows "getIssuesByComponents cfg fetch settled_at ids =
     \<lparr>outcome =
        (case promise_all settled_at
                (map (\<lambda>w. page_result fetch (url_after cfg ids (drop 1 chunks)) (window_request cfg ids w))
                   (drop 1 chunks)) of
           Inl e \<Rightarrow> Inl e
         | Inr restIssueBatches \<Rightarrow> Inr (concat (issues d # restIssueBatches))),
      requests = UrlObject (search_url cfg ids)
        # map (\<lambda>w. UrlObject (window_request cfg ids w)) (drop 1 chunks)\<rparr>"
proof -
  from assms(1) obtain res j where "fetch (UrlObject (search_url cfg ids)) = Inr res"
    "status res = 200" "body res = Some j" "GetIssuesByComponentsResponseSchema (Some j) = Some d"
    by (rule page_of_SomeD)
  then show ?thesis
    using assms(2)
    by (simp add: getIssuesByComponents_def res_json_def parse_def send_requests_search_url
        url_after_def comp_def Let_def)
qed



lemma getIssuesByComponents_planner_fails:
  assumes "page_of fetch (search_url cfg ids) = Some d"
    and "createPaginationChunks (maxResults d) (total d) = Inl e"
  shows "getIssuesByComponents cfg fetch settled_at ids =
     \<lparr>outcome = Inl e, requests = [UrlObject (search_url cfg ids)]\<rparr>"
proof -
  from assms(1) obtain res j where "fetch (UrlObject (search_url cfg ids)) = Inr res"
    "status res = 200" "body res = Some j" "GetIssuesByComponentsResponseSchema (Some j) = Some d"
    by (rule page_of_SomeD)
  then show ?thesis
    using assms(2) by (simp add: getIssuesByComponents_def res_json_def parse_def Let_def)
qed

lemma startAt_of_window_request:
  "searchParams_get ''startAt'' (UrlObject (window_request cfg ids w)) = Some (string_of_int (startAt w))"
  by (simp add: window_request_params)

lemma startAt_of_search_url:
  "searchParams_get ''startAt'' (UrlObject (search_url cfg ids)) = Some ''0''"
  by (simp add: search_url_params)

section \<open>Properties of \<^verbatim>\<open>getIssuesByComponents\<close>\<close>

lemma chunks_8_2:
  "createPaginationChunks (Num 2) (Num 8) =
     Inr [\<lparr>startAt = 0, pageSize = 2\<rparr>, \<lparr>startAt = 2, pageSize = 2\<rparr>,
          \<lparr>startAt = 4, pageSize = 2\<rparr>, \<lparr>startAt = 6, pageSize = 2\<rparr>]"
  by code_simp

lemma small_strings:
  "string_of_int 2 = ''2''" "string_of_int 4 = ''4''" "string_of_int 6 = ''6''"
  by (simp_all add: string_of_int_def string_of_nat.simps digit_def)

text \<open>
  Claim C1. When the first page reports \<^verbatim>\<open>total\<close> 8 and \<^verbatim>\<open>maxResults\<close> 2,
  \<^verbatim>\<open>getIssuesByComponents\<close> makes exactly four requests, with \<^verbatim>\<open>startAt\<close> 0, 2, 4 and 6 in
  this order; when the three further pages are served, it returns the issues of the four
  pages concatenated in the order of the windows, whatever the times \<open>settled_at\<close> at
  which the three concurrent requests complete; and these are all eight issues when each
  page holds its two issues of the eight.
\<close>

theorem getIssuesByComponents_eight_by_two:
  assumes "page_of fetch (search_url cfg ids) = Some d"
    and "maxResults d = Num 2" and "total d = Num 8"
  shows "map (searchParams_get ''startAt'') (requests (getIssuesByComponents cfg fetch settled_at ids))
           = [Some ''0'', Some ''2'', Some ''4'', Some ''6'']
    \<and> (\<forall>d2 d4 d6.
          page_of fetch (window_request cfg ids \<lparr>startAt = 2, pageSize = 2\<rparr>) = Some d2
        \<and> page_of fetch (window_request cfg ids \<lparr>startAt = 4, pageSize = 2\<rparr>) = Some d4
        \<and> page_of fetch (window_request cfg ids \<lparr>startAt = 6, pageSize = 2\<rparr>) = Some d6
        \<longrightarrow> outcome (getIssuesByComponents cfg fetch settled_at ids)
              = Inr (issues d @ issues d2 @ issues d4 @ issues d6)
          \<and> (\<forall>all. length all = 8 \<and> issues d = take 2 all \<and> issues d2 = take 2 (drop 2 all)
                \<and> issues d4 = take 2 (drop 4 all) \<and> issues d6 = take 2 (drop 6 all)
              \<longrightarrow> outcome (getIssuesByComponents cfg fetch settled_at ids) = Inr all))"
proof -
  let ?w2 = "\<lparr>startAt = 2, pageSize = 2\<rparr>" and ?w4 = "\<lparr>startAt = 4, pageSize = 2\<rparr>"
    and ?w6 = "\<lparr>startAt = 6, pageSize = 2\<rparr>"
  have chunks: "createPaginationChunks (maxResults d) (total d) =
      Inr [\<lparr>startAt = 0, pageSize = 2\<rparr>, ?w2, ?w4, ?w6]"
    by (simp only: assms(2,3) chunks_8_2)
  note run = getIssuesByComponents_pages [OF assms(1) chunks, of settled_at]
  have sent: "map (searchParams_get ''startAt'') (requests (getIssuesByComponents cfg fetch settled_at ids))
           = [Some ''0'', Some ''2'', Some ''4'', Some ''6'']"
    by (simp add: run startAt_of_search_url startAt_of_window_request small_strings
        del: searchParams_get.simps)
  have got: "outcome (getIssuesByComponents cfg fetch settled_at ids)
              = Inr (issues d @ issues d2 @ issues d4 @ issues d6)"
    if "page_of fetch (window_request cfg ids ?w2) = Some d2"
      and "page_of fetch (window_request cfg ids ?w4) = Some d4"
      and "page_of fetch (window_request cfg ids ?w6) = Some d6" for d2 d4 d6
  proof -
    have "promise_all settled_at
        (map (\<lambda>w. page_result fetch (url_after cfg ids [?w2, ?w4, ?w6]) (window_request cfg ids w))
           [?w2, ?w4, ?w6]) = Inr [issues d2, issues d4, issues d6]"
      by (simp add: page_result_ok [OF that(1)] page_result_ok [OF that(2)]
          page_result_ok [OF that(3)] promise_all_fulfilled)
    then show ?thesis by (simp add: run)
  qed
  have whole: "issues d @ issues d2 @ issues d4 @ issues d6 = all"
    if "length all = 8" "issues d = take 2 all" "issues d2 = take 2 (drop 2 all)"
      "issues d4 = take 2 (drop 4 all)" "issues d6 = take 2 (drop 6 all)"
    for all :: "issue list" and d2 d4 d6
  proof -
    have "take (6 + 2) all = take 6 all @ take 2 (drop 6 all)"
      and "take (4 + 2) all = take 4 all @ take 2 (drop 4 all)"
      and "take (2 + 2) all = take 2 all @ take 2 (drop 2 all)"
      by (rule take_add)+
    then have "take 2 all @ take 2 (drop 2 all) @ take 2 (drop 4 all) @ take 2 (drop 6 all) = take 8 all"
      by simp
    then show ?thesis using that by simp
  qed
  show ?thesis
  proof (intro conjI allI impI)
    show "map (searchParams_get ''startAt'') (requests (getIssuesByComponents cfg fetch settled_at ids))
           = [Some ''0'', Some ''2'', Some ''4'', Some ''6'']"
      by (rule sent)
  next
    fix d2 d4 d6
    assume "page_of fetch (window_request cfg ids ?w2) = Some d2
        \<and> page_of fetch (window_request cfg ids ?w4) = Some d4
        \<and> page_of fetch (window_request cfg ids ?w6) = Some d6"
    then show "outcome (getIssuesByComponents cfg fetch settled_at ids)
              = Inr (issues d @ issues d2 @ issues d4 @ issues d6)"
      by (simp add: got)
  next
    fix d2 d4 d6 and all :: "issue list"
    assume "page_of fetch (window_request cfg ids ?w2) = Some d2
        \<and> page_of fetch (window_request cfg ids ?w4) = Some d4
        \<and> page_of fetch (window_request cfg ids ?w6) = Some d6"
      and "length all = 8 \<and> issues d = take 2 all \<and> issues d2 = take 2 (drop 2 all)
                \<and> issues d4 = take 2 (drop 4 all) \<and> issues d6 = take 2 (drop 6 all)"
    then show "outcome (getIssuesByComponents cfg fetch settled_at ids) = Inr all"
      using got [of d2 d4 d6] whole [of all d2 d4 d6] by simp
  qed
qed

text \<open>The test of paginated responses, with the requests completing in reverse order.\<close>

theorem getIssuesByComponents_eight_by_two_witness:
  "page_of (paginated_server fixture_issues 2) (search_url test_config [''a'', ''b'', ''c''])
     = Some \<lparr>data_startAt = Num 0, maxResults = Num 2, total = Num 8, issues = take 2 parsed_fixture\<rparr>
   \<and> map (searchParams_get ''startAt'')
        (requests (getIssuesByComponents test_config (paginated_server fixture_issues 2)
           (\<lambda>i. 3 - i) [''a'', ''b'', ''c'']))
      = [Some ''0'', Some ''2'', Some ''4'', Some ''6'']
   \<and> length parsed_fixture = 8
   \<and> outcome (getIssuesByComponents test_config (paginated_server fixture_issues 2)
        (\<lambda>i. 3 - i) [''a'', ''b'', ''c''])
      = Inr parsed_fixture"
proof -
  let ?fetch = "paginated_server fixture_issues 2" and ?ids = "[''a'', ''b'', ''c'']"
  let ?d = "\<lparr>data_startAt = Num 0, maxResults = Num 2, total = Num 8, issues = take 2 parsed_fixture\<rparr>"
  let ?d2 = "\<lparr>data_startAt = Num 2, maxResults = Num 2, total = Num 8, issues = take 2 (drop 2 parsed_fixture)\<rparr>"
  let ?d4 = "\<lparr>data_startAt = Num 4, maxResults = Num 2, total = Num 8, issues = take 2 (drop 4 parsed_fixture)\<rparr>"
  let ?d6 = "\<lparr>data_startAt = Num 6, maxResults = Num 2, total = Num 8, issues = take 2 (drop 6 parsed_fixture)\<rparr>"
  have first: "page_of ?fetch (search_url test_config ?ids) = Some ?d"
    by code_simp
  have m: "maxResults ?d = Num 2" and t: "total ?d = Num 8"
    by simp_all
  have p2: "page_of ?fetch (window_request test_config ?ids \<lparr>startAt = 2, pageSize = 2\<rparr>) = Some ?d2"
    by code_simp
  have p4: "page_of ?fetch (window_request test_config ?ids \<lparr>startAt = 4, pageSize = 2\<rparr>) = Some ?d4"
    by code_simp
  have p6: "page_of ?fetch (window_request test_config ?ids \<lparr>startAt = 6, pageSize = 2\<rparr>) = Some ?d6"
    by code_simp
  have len: "length parsed_fixture = 8"
    by code_simp
  note inst = getIssuesByComponents_eight_by_two [OF first m t, of "\<lambda>i. 3 - i"]
  from inst have sent: "map (searchParams_get ''startAt'')
        (requests (getIssuesByComponents test_config ?fetch (\<lambda>i. 3 - i) ?ids))
      = [Some ''0'', Some ''2'', Some ''4'', Some ''6'']"
    by (rule conjunct1)
  from inst have "page_of ?fetch (window_request test_config ?ids \<lparr>startAt = 2, pageSize = 2\<rparr>) = Some ?d2
        \<and> page_of ?fetch (window_request test_config ?ids \<lparr>startAt = 4, pageSize = 2\<rparr>) = Some ?d4
        \<and> page_of ?fetch (window_request test_config ?ids \<lparr>startAt = 6, pageSize = 2\<rparr>) = Some ?d6
      \<longrightarrow> (length parsed_fixture = 8 \<and> issues ?d = take 2 parsed_fixture
            \<and> issues ?d2 = take 2 (drop 2 parsed_fixture)
            \<and> issues ?d4 = take 2 (drop 4 parsed_fixture) \<and> issues ?d6 = take 2 (drop 6 parsed_fixture)
          \<longrightarrow> outcome (getIssuesByComponents test_config ?fetch (\<lambda>i. 3 - i) ?ids) = Inr parsed_fixture)"
    by blast
  with p2 p4 p6 len
  have "outcome (getIssuesByComponents test_config ?fetch (\<lambda>i. 3 - i) ?ids) = Inr parsed_fixture"
    by simp
  with first sent len show ?thesis by (simp only: simp_thms)
qed

lemma createPaginationChunks_one_page:
  assumes "isSafeInteger m" and "number_less (Num 0) m"
    and "isSafeInteger t" and "number_le (Num 0) t" and "number_le t m"
  shows "\<exists>chunks. createPaginationChunks m t = Inr chunks \<and> length chunks \<le> 1"
proof -
  from assms(1) obtain p where m: "m = Num (of_int p)" and p: "\<bar>p\<bar> \<le> MAX_SAFE_INTEGER"
    by (rule isSafeInteger_cases)
  from assms(3) obtain q where t: "t = Num (of_int q)" and q: "\<bar>q\<bar> \<le> MAX_SAFE_INTEGER"
    by (rule isSafeInteger_cases)
  have pos: "0 < p" and nonneg: "0 \<le> q" and le: "q \<le> p"
    using assms(2,4,5) by (simp_all add: m t)
  define n where "n = \<lceil>(of_int q :: rat) / of_int p\<rceil>"
  have "p * (n - 1) < q"
    unfolding n_def by (rule ceiling_quotient_bounds(1) [OF pos])
  with le have "p * (n - 1) < p * 1" by simp
  then have "n - 1 < 1" using pos by (simp only: mult_less_cancel_left_pos)
  then have n1: "n \<le> 1" by simp
  have n0: "0 \<le> n"
    unfolding n_def by (rule ceiling_quotient_nonneg [OF pos nonneg])
  have "n \<le> NODE_MAX_ARRAY_LENGTH" using n1 by (simp add: NODE_MAX_ARRAY_LENGTH_def)
  then have "createPaginationChunks m t =
      Inr (map (\<lambda>index. \<lparr>startAt = int index * p,
                   pageSize = (if int index = n - 1 then q - p * (n - 1) else p)\<rparr>) [0..<nat n])"
    using createPaginationChunks_safe [of p q NODE_MAX_ARRAY_LENGTH] pos nonneg p q
    by (simp add: m t n_def [symmetric] createPaginationChunks_def)
  moreover have "nat n \<le> 1" using n1 by simp
  ultimately show ?thesis by simp
qed

text \<open>
  Claim C9, amended. When the first page reports a \<^verbatim>\<open>maxResults\<close> that is a positive safe
  integer and a \<^verbatim>\<open>total\<close> that is a non-negative safe integer at most \<^verbatim>\<open>maxResults\<close>
  (0 included), \<^verbatim>\<open>getIssuesByComponents\<close> makes the one request of the first page and
  returns the issues of that page unchanged.
\<close>

theorem getIssuesByComponents_single_page:
  assumes "page_of fetch (search_url cfg ids) = Some d"
    and "isSafeInteger (maxResults d)" and "number_less (Num 0) (maxResults d)"
    and "isSafeInteger (total d)" and "number_le (Num 0) (total d)"
    and "number_le (total d) (maxResults d)"
  shows "getIssuesByComponents cfg fetch settled_at ids =
     \<lparr>outcome = Inr (issues d), requests = [UrlObject (search_url cfg ids)]\<rparr>"
proof -
  from createPaginationChunks_one_page [OF assms(2-6)] obtain chunks
    where chunks: "createPaginationChunks (maxResults d) (total d) = Inr chunks"
      and "length chunks \<le> 1"
    by blast
  then have none: "drop 1 chunks = []" by simp
  have "promise_all settled_at ([] :: (error + issue list) list) = Inr []"
    by (simp add: promise_all_fulfilled)
  then show ?thesis
    using getIssuesByComponents_pages [OF assms(1) chunks, of settled_at, unfolded none]
    by simp
qed

text \<open>A first page that holds all eight issues, and an empty first page.\<close>

theorem getIssuesByComponents_single_page_witness:
  "page_of (paginated_server fixture_issues 100) (search_url test_config [''a''])
     = Some \<lparr>data_startAt = Num 0, maxResults = Num 100, total = Num 8, issues = parsed_fixture\<rparr>
   \<and> number_le (Num 8) (Num 100)
   \<and> getIssuesByComponents test_config (paginated_server fixture_issues 100) (\<lambda>i. 0) [''a''] =
       \<lparr>outcome = Inr parsed_fixture, requests = [UrlObject (search_url test_config [''a''])]\<rparr>
   \<and> page_of (reporting_server (Num 50) (Num 0)) (search_url test_config [''a''])
     = Some \<lparr>data_startAt = Num 0, maxResults = Num 50, total = Num 0, issues = []\<rparr>
   \<and> getIssuesByComponents test_config (reporting_server (Num 50) (Num 0)) (\<lambda>i. 0) [''a''] =
       \<lparr>outcome = Inr [], requests = [UrlObject (search_url test_config [''a''])]\<rparr>"
proof -
  let ?d = "\<lparr>data_startAt = Num 0, maxResults = Num 100, total = Num 8, issues = parsed_fixture\<rparr>"
  let ?e = "\<lparr>data_startAt = Num 0, maxResults = Num 50, total = Num 0, issues = []\<rparr>"
  have first: "page_of (paginated_server fixture_issues 100) (search_url test_config [''a'']) = Some ?d"
    by code_simp
  have empty: "page_of (reporting_server (Num 50) (Num 0)) (search_url test_config [''a'']) = Some ?e"
    by code_simp
  have h: "isSafeInteger (maxResults ?d)" "number_less (Num 0) (maxResults ?d)"
    "isSafeInteger (total ?d)" "number_le (Num 0) (total ?d)" "number_le (total ?d) (maxResults ?d)"
    by (simp_all add: MAX_SAFE_INTEGER_def)
  have k: "isSafeInteger (maxResults ?e)" "number_less (Num 0) (maxResults ?e)"
    "isSafeInteger (total ?e)" "number_le (Num 0) (total ?e)" "number_le (total ?e) (maxResults ?e)"
    by (simp_all add: MAX_SAFE_INTEGER_def)
  show ?thesis
    using getIssuesByComponents_single_page [OF first h, of "\<lambda>i. 0"]
      getIssuesByComponents_single_page [OF empty k, of "\<lambda>i. 0"] first empty
    by simp
qed

text \<open>
  Claim C9 as stated fails on a first page that reports \<^verbatim>\<open>maxResults\<close> 0 and \<^verbatim>\<open>total\<close> 0:
  \<^verbatim>\<open>maxResults\<close> is at least \<^verbatim>\<open>total\<close>, and the planner refuses the page size 0, so that
  nothing is returned.
\<close>

theorem getIssuesByComponents_single_page_counterexample:
  "page_of (reporting_server (Num 0) (Num 0)) (search_url test_config [''a''])
     = Some \<lparr>data_startAt = Num 0, maxResults = Num 0, total = Num 0, issues = []\<rparr>
   \<and> number_le (Num 0) (Num 0)
   \<and> outcome (getIssuesByComponents test_config (reporting_server (Num 0) (Num 0)) (\<lambda>i. 0) [''a''])
      = Inl (TypeError ''Option 'pageSize' needs to be a positive safe integer.'')"
  by code_simp

section \<open>Properties of the report\<close>

lemma count_component_lookup:
  "(case count_component m c k of None \<Rightarrow> 0 | Some n \<Rightarrow> n) =
     (case m k of None \<Rightarrow> 0 | Some n \<Rightarrow> n) + (if ref_id c = k then 1 else 0)"
  by (simp add: count_component_def)

lemma foldl_count_component:
  "(case foldl count_component m cs k of None \<Rightarrow> 0 | Some n \<Rightarrow> n) =
     (case m k of None \<Rightarrow> 0 | Some n \<Rightarrow> n) + count_list (map ref_id cs) k"
  by (induction cs arbitrary: m) (simp_all add: count_component_lookup)

lemma foldl_count_issue:
  "(case foldl count_issue m is k of None \<Rightarrow> 0 | Some n \<Rightarrow> n) =
     (case m k of None \<Rightarrow> 0 | Some n \<Rightarrow> n) + sum_list (map (references k) is)"
  by (induction "is" arbitrary: m) (simp_all add: count_issue_def foldl_count_component references_def)

lemma count_issues_lookup:
  "(case count_issues is k of None \<Rightarrow> 0 | Some n \<Rightarrow> n) = sum_list (map (references k) is)"
  by (simp add: count_issues_def foldl_count_issue)

lemma count_list_distinct:
  "distinct xs \<Longrightarrow> count_list xs x = (if x \<in> set xs then 1 else 0)"
  by (induction xs) auto

lemma references_distinct:
  assumes "\<forall>i \<in> set is. distinct (map ref_id (components (fields' i)))"
  shows "sum_list (map (references k) is) = length (filter (refers_to k) is)"
  using assms by (induction "is") (simp_all add: references_def refers_to_def count_list_distinct)

lemma getJiraComponentsWithoutLead_failed_components:
  assumes "outcome (getComponents cfg fetch) = Inl e"
  shows "getJiraComponentsWithoutLead cfg fetch settled_at =
    \<lparr>report = Inl e, api_calls = [Call_getComponents], http_requests = [UrlString (components_url cfg)]\<rparr>"
  using assms by (simp add: getJiraComponentsWithoutLead_def getComponents_requests Let_def)

lemma getJiraComponentsWithoutLead_all_led:
  assumes "outcome (getComponents cfg fetch) = Inr cs" and "filter (\<lambda>c. lead c = None) cs = []"
  shows "getJiraComponentsWithoutLead cfg fetch settled_at =
    \<lparr>report = Inr [], api_calls = [Call_getComponents], http_requests = [UrlString (components_url cfg)]\<rparr>"
  using assms by (simp add: getJiraComponentsWithoutLead_def getComponents_requests Let_def)

lemma getJiraComponentsWithoutLead_some_unled:
  assumes "outcome (getComponents cfg fetch) = Inr cs" and "filter (\<lambda>c. lead c = None) cs \<noteq> []"
  shows "getJiraComponentsWithoutLead cfg fetch settled_at =
    (let unled = filter (\<lambda>c. lead c = None) cs;
         i = getIssuesByComponents cfg fetch settled_at (map comp_id unled)
     in \<lparr>report =
          (case outcome i of
             Inl e \<Rightarrow> Inl e
           | Inr found \<Rightarrow>
               Inr (map (\<lambda>c. \<lparr>entry_id = comp_id c, entry_name = comp_name c,
                      entry_issues = sum_list (map (references (comp_id c)) found)\<rparr>) unled)),
         api_calls = [Call_getComponents, Call_getIssuesByComponents (map comp_id unled)],
         http_requests = UrlString (components_url cfg) # requests i\<rparr>)"
  using assms
  by (simp add: getJiraComponentsWithoutLead_def getComponents_requests Let_def count_issues_lookup
      cong: sum.case_cong)

text \<open>
  Claim C10. When every component that \<^verbatim>\<open>getComponents\<close> returns has a lead, the list being
  empty or not, \<^verbatim>\<open>getJiraComponentsWithoutLead\<close> returns the empty list, its only call of
  the client is \<^verbatim>\<open>getComponents\<close> and its only request the one of the components. And in
  no run at all is \<^verbatim>\<open>getIssuesByComponents\<close> called with an empty list of component ids.
\<close>

theorem all_led_no_search:
  "(\<forall>cs. outcome (getComponents cfg fetch) = Inr cs \<and> (\<forall>c \<in> set cs. lead c \<noteq> None) \<longrightarrow>
      getJiraComponentsWithoutLead cfg fetch settled_at =
        \<lparr>report = Inr [], api_calls = [Call_getComponents],
         http_requests = [UrlString (components_url cfg)]\<rparr>)
   \<and> Call_getIssuesByComponents [] \<notin> set (api_calls (getJiraComponentsWithoutLead cfg fetch settled_at))"
proof (intro conjI allI impI)
  fix cs
  assume a: "outcome (getComponents cfg fetch) = Inr cs \<and> (\<forall>c \<in> set cs. lead c \<noteq> None)"
  then have "filter (\<lambda>c. lead c = None) cs = []" by (simp add: filter_empty_conv)
  with a show "getJiraComponentsWithoutLead cfg fetch settled_at =
        \<lparr>report = Inr [], api_calls = [Call_getComponents],
         http_requests = [UrlString (components_url cfg)]\<rparr>"
    by (simp add: getJiraComponentsWithoutLead_all_led)
next
  show "Call_getIssuesByComponents [] \<notin> set (api_calls (getJiraComponentsWithoutLead cfg fetch settled_at))"
  proof (cases "outcome (getComponents cfg fetch)")
    case (Inl e)
    then show ?thesis by (simp add: getJiraComponentsWithoutLead_failed_components)
  next
    case (Inr cs)
    show ?thesis
    proof (cases "filter (\<lambda>c. lead c = None) cs = []")
      case True
      with Inr show ?thesis by (simp add: getJiraComponentsWithoutLead_all_led)
    next
      case False
      with Inr show ?thesis by (simp add: getJiraComponentsWithoutLead_some_unled Let_def)
    qed
  qed
qed


text \<open>
  Two components, each with a lead.
\<close>

theorem all_led_no_search_witness:
  "outcome (getComponents test_config
      (tracker (ok (JArray [component_json ''a'' ''Backend'' True, component_json ''b'' ''Frontend'' True]))
         (paginated_server fixture_issues 2)))
    = Inr [\<lparr>comp_id = ''a'', comp_name = ''Backend'', lead = Some \<lparr>accountId = ''5an'', displayName = ''Ann''\<rparr>\<rparr>,
           \<lparr>comp_id = ''b'', comp_name = ''Frontend'', lead = Some \<lparr>accountId = ''5an'', displayName = ''Ann''\<rparr>\<rparr>]
   \<and> getJiraComponentsWithoutLead test_config
      (tracker (ok (JArray [component_json ''a'' ''Backend'' True, component_json ''b'' ''Frontend'' True]))
         (paginated_server fixture_issues 2)) (\<lambda>i. 0)
    = \<lparr>report = Inr [], api_calls = [Call_getComponents],
       http_requests = [UrlString (components_url test_config)]\<rparr>"
proof -
  let ?fetch = "tracker (ok (JArray [component_json ''a'' ''Backend'' True, component_json ''b'' ''Frontend'' True]))
         (paginated_server fixture_issues 2)"
  let ?cs = "[\<lparr>comp_id = ''a'', comp_name = ''Backend'', lead = Some \<lparr>accountId = ''5an'', displayName = ''Ann''\<rparr>\<rparr>,
           \<lparr>comp_id = ''b'', comp_name = ''Frontend'', lead = Some \<lparr>accountId = ''5an'', displayName = ''Ann''\<rparr>\<rparr>]"
  have got: "outcome (getComponents test_config ?fetch) = Inr ?cs"
    by code_simp
  have led: "\<forall>c \<in> set ?cs. lead c \<noteq> None"
    by simp
  from all_led_no_search [of test_config ?fetch "\<lambda>i. 0"] got led
  have "getJiraComponentsWithoutLead test_config ?fetch (\<lambda>i. 0)
    = \<lparr>report = Inr [], api_calls = [Call_getComponents],
       http_requests = [UrlString (components_url test_config)]\<rparr>"
    by blast
  with got show ?thesis by (simp only: simp_thms)
qed

text \<open>
  Claim C6. When the request of the components is answered with status 200 and a body that
  is a valid component list, \<^verbatim>\<open>getComponents\<close> returns the validated list as it is: the body
  is an array, and the list has the validated elements of the array in their order. When
  the body is the empty array, the list is empty and the report is empty.
\<close>

theorem getComponents_validated_list:
  assumes "fetch (UrlString (components_url cfg)) = Inr res" and "status res = 200"
    and "body res = Some j" and "GetComponentsResponseSchema (Some j) = Some cs"
  shows "outcome (getComponents cfg fetch) = Inr cs
    \<and> (\<exists>xs. j = JArray xs \<and> length cs = length xs
          \<and> (\<forall>i < length xs. ComponentSchema (Some (xs ! i)) = Some (cs ! i)))
    \<and> (j = JArray [] \<longrightarrow> cs = []
          \<and> report (getJiraComponentsWithoutLead cfg fetch settled_at) = Inr [])"
proof -
  have got: "outcome (getComponents cfg fetch) = Inr cs"
    using assms by (simp add: getComponents_outcome)
  from assms(4) obtain xs where xs: "j = JArray xs"
    and all: "those (map (\<lambda>x. ComponentSchema (Some x)) xs) = Some cs"
    unfolding GetComponentsResponseSchema_def by (cases j) simp_all
  from those_nth [OF all] have order: "length cs = length xs
      \<and> (\<forall>i < length xs. ComponentSchema (Some (xs ! i)) = Some (cs ! i))" .
  have none: "cs = [] \<and> report (getJiraComponentsWithoutLead cfg fetch settled_at) = Inr []"
    if "j = JArray []"
  proof -
    from that xs all have "cs = []" by simp
    with got show ?thesis by (simp add: getJiraComponentsWithoutLead_all_led)
  qed
  from got xs order none show ?thesis by blast
qed

text \<open>
  A list of two components, and the empty list.
\<close>

theorem getComponents_validated_list_witness:
  "outcome (getComponents test_config
      (tracker (ok (JArray [component_json ''a'' ''Backend'' False, component_json ''b'' ''Frontend'' True]))
         (paginated_server fixture_issues 2)))
    = Inr [\<lparr>comp_id = ''a'', comp_name = ''Backend'', lead = None\<rparr>,
           \<lparr>comp_id = ''b'', comp_name = ''Frontend'', lead = Some \<lparr>accountId = ''5an'', displayName = ''Ann''\<rparr>\<rparr>]
   \<and> outcome (getComponents test_config (tracker (ok (JArray [])) (paginated_server fixture_issues 2)))
    = Inr []
   \<and> report (getJiraComponentsWithoutLead test_config
        (tracker (ok (JArray [])) (paginated_server fixture_issues 2)) (\<lambda>i. 0)) = Inr []"
proof -
  let ?list = "JArray [component_json ''a'' ''Backend'' False, component_json ''b'' ''Frontend'' True]"
  let ?cs = "[\<lparr>comp_id = ''a'', comp_name = ''Backend'', lead = None\<rparr>,
           \<lparr>comp_id = ''b'', comp_name = ''Frontend'', lead = Some \<lparr>accountId = ''5an'', displayName = ''Ann''\<rparr>\<rparr>]"
  have a: "tracker (ok ?list) (paginated_server fixture_issues 2) (UrlString (components_url test_config))
      = Inr \<lparr>status = 200, statusText = ''OK'', body = Some ?list\<rparr>"
    by (simp add: tracker_def ok_def)
  have b: "tracker (ok (JArray [])) (paginated_server fixture_issues 2) (UrlString (components_url test_config))
      = Inr \<lparr>status = 200, statusText = ''OK'', body = Some (JArray [])\<rparr>"
    by (simp add: tracker_def ok_def)
  have va: "GetComponentsResponseSchema (Some ?list) = Some ?cs"
    by code_simp
  have vb: "GetComponentsResponseSchema (Some (JArray [])) = Some []"
    by (simp add: GetComponentsResponseSchema_def)
  show ?thesis
    using getComponents_validated_list [where cfg = test_config
          and fetch = "tracker (ok ?list) (paginated_server fixture_issues 2)", OF a _ _ va]
      getComponents_validated_list [where cfg = test_config and settled_at = "\<lambda>i. 0"
          and fetch = "tracker (ok (JArray [])) (paginated_server fixture_issues 2)", OF b _ _ vb]
    by simp
qed

text \<open>
  Claim C7, amended. When \<^verbatim>\<open>getComponents\<close> returns a list and, if it has a component
  without a lead, \<^verbatim>\<open>getIssuesByComponents\<close> returns the issues \<open>found\<close>, the report has one
  entry for each component without a lead, in the order of the list, with the id and the
  name of the component and, as \<^verbatim>\<open>issues\<close>, the number of references to its id in the
  component lists of the issues found (0 when there is none). That is the number of the
  issues that refer to the id when no issue lists a component id twice.
\<close>

theorem report_counts_references:
  assumes "outcome (getComponents cfg fetch) = Inr cs"
    and "filter (\<lambda>c. lead c = None) cs \<noteq> [] \<longrightarrow>
         outcome (getIssuesByComponents cfg fetch settled_at
           (map comp_id (filter (\<lambda>c. lead c = None) cs))) = Inr found"
  shows "report (getJiraComponentsWithoutLead cfg fetch settled_at) =
       Inr (map (\<lambda>c. \<lparr>entry_id = comp_id c, entry_name = comp_name c,
                      entry_issues = sum_list (map (references (comp_id c)) found)\<rparr>)
             (filter (\<lambda>c. lead c = None) cs))
    \<and> ((\<forall>i \<in> set found. distinct (map ref_id (components (fields' i)))) \<longrightarrow>
        report (getJiraComponentsWithoutLead cfg fetch settled_at) =
          Inr (map (\<lambda>c. \<lparr>entry_id = comp_id c, entry_name = comp_name c,
                      entry_issues = length (filter (refers_to (comp_id c)) found)\<rparr>)
                (filter (\<lambda>c. lead c = None) cs)))"
proof -
  have counted: "report (getJiraComponentsWithoutLead cfg fetch settled_at) =
       Inr (map (\<lambda>c. \<lparr>entry_id = comp_id c, entry_name = comp_name c,
                      entry_issues = sum_list (map (references (comp_id c)) found)\<rparr>)
             (filter (\<lambda>c. lead c = None) cs))"
  proof (cases "filter (\<lambda>c. lead c = None) cs = []")
    case True
    with assms(1) show ?thesis by (simp add: getJiraComponentsWithoutLead_all_led)
  next
    case False
    with assms show ?thesis by (simp add: getJiraComponentsWithoutLead_some_unled Let_def)
  qed
  then show ?thesis
    by (simp add: references_distinct)
qed

text \<open>
  One component \<^verbatim>\<open>C1\<close> without a lead and one with a lead, and three issues of which two
  refer to \<^verbatim>\<open>C1\<close>: the report is the one entry of \<^verbatim>\<open>C1\<close> with 2 issues.
\<close>

theorem report_counts_references_witness:
  "report (getJiraComponentsWithoutLead test_config
      (tracker (ok (JArray [component_json ''C1'' ''Backend'' False, component_json ''C2'' ''Frontend'' True]))
         (paginated_server [issue_json ''1'' [''C1''], issue_json ''2'' [''C2''], issue_json ''3'' [''C2'', ''C1'']] 2))
      (\<lambda>i. 0))
    = Inr [\<lparr>entry_id = ''C1'', entry_name = ''Backend'', entry_issues = 2\<rparr>]"
proof -
  let ?fetch = "tracker (ok (JArray [component_json ''C1'' ''Backend'' False, component_json ''C2'' ''Frontend'' True]))
         (paginated_server [issue_json ''1'' [''C1''], issue_json ''2'' [''C2''], issue_json ''3'' [''C2'', ''C1'']] 2)"
  let ?cs = "[\<lparr>comp_id = ''C1'', comp_name = ''Backend'', lead = None\<rparr>,
           \<lparr>comp_id = ''C2'', comp_name = ''Frontend'', lead = Some \<lparr>accountId = ''5an'', displayName = ''Ann''\<rparr>\<rparr>]"
  let ?found = "[\<lparr>issue_id = ''1'', fields' = \<lparr>components = [\<lparr>ref_id = ''C1'', ref_name = ''name of C1''\<rparr>]\<rparr>\<rparr>,
      \<lparr>issue_id = ''2'', fields' = \<lparr>components = [\<lparr>ref_id = ''C2'', ref_name = ''name of C2''\<rparr>]\<rparr>\<rparr>,
      \<lparr>issue_id = ''3'', fields' = \<lparr>components = [\<lparr>ref_id = ''C2'', ref_name = ''name of C2''\<rparr>,
         \<lparr>ref_id = ''C1'', ref_name = ''name of C1''\<rparr>]\<rparr>\<rparr>]"
  have got: "outcome (getComponents test_config ?fetch) = Inr ?cs"
    by code_simp
  have unled: "filter (\<lambda>c. lead c = None) ?cs = [\<lparr>comp_id = ''C1'', comp_name = ''Backend'', lead = None\<rparr>]"
    by simp
  have issues: "outcome (getIssuesByComponents test_config ?fetch (\<lambda>i. 0) [''C1'']) = Inr ?found"
    by code_simp
  have "filter (\<lambda>c. lead c = None) ?cs \<noteq> [] \<longrightarrow>
         outcome (getIssuesByComponents test_config ?fetch (\<lambda>i. 0)
           (map comp_id (filter (\<lambda>c. lead c = None) ?cs))) = Inr ?found"
    using issues by (simp only: unled) simp
  from report_counts_references [OF got this]
  show ?thesis
    by (simp add: references_def refers_to_def)
qed

text \<open>
  Claim C7 as stated fails on an issue that lists a component twice: one issue refers to
  \<^verbatim>\<open>C1\<close>, and the report counts 2.
\<close>

theorem report_counts_references_counterexample:
  "outcome (getIssuesByComponents test_config
      (tracker (ok (JArray [component_json ''C1'' ''Backend'' False]))
         (paginated_server [issue_json ''1'' [''C1'', ''C1'']] 2))
      (\<lambda>i. 0) [''C1''])
    = Inr [\<lparr>issue_id = ''1'', fields' = \<lparr>components = [\<lparr>ref_id = ''C1'', ref_name = ''name of C1''\<rparr>,
         \<lparr>ref_id = ''C1'', ref_name = ''name of C1''\<rparr>]\<rparr>\<rparr>]
   \<and> length (filter (refers_to ''C1'')
        [\<lparr>issue_id = ''1'', fields' = \<lparr>components = [\<lparr>ref_id = ''C1'', ref_name = ''name of C1''\<rparr>,
           \<lparr>ref_id = ''C1'', ref_name = ''name of C1''\<rparr>]\<rparr>\<rparr>]) = 1
   \<and> report (getJiraComponentsWithoutLead test_config
      (tracker (ok (JArray [component_json ''C1'' ''Backend'' False]))
         (paginated_server [issue_json ''1'' [''C1'', ''C1'']] 2))
      (\<lambda>i. 0))
    = Inr [\<lparr>entry_id = ''C1'', entry_name = ''Backend'', entry_issues = 2\<rparr>]"
  by code_simp

section \<open>Failing pages\<close>





text \<open>
  Claim C8 does not hold of the code. The callbacks of the concurrent requests write their
  windows into one shared \<^verbatim>\<open>URL\<close> object, and the error of a refused page holds that
  object: with the pages at 2, 4 and 6 requested and the page at 2 refused, the
  \<^verbatim>\<open>JiraResponseError\<close> carries the URL of the request of the page at 6, the last one
  written, and not the URL of the request that was refused.
\<close>

theorem error_url_is_shared_object:
  "refusing_one fixture_issues 2 2
      (UrlObject (window_request test_config [''a'', ''b'', ''c''] \<lparr>startAt = 2, pageSize = 2\<rparr>))
     = Inr \<lparr>status = 400, statusText = ''Bad Request'', body = None\<rparr>
   \<and> requests (getIssuesByComponents test_config (refusing_one fixture_issues 2 2) (\<lambda>i. 0)
        [''a'', ''b'', ''c''])
     = [UrlObject (search_url test_config [''a'', ''b'', ''c'']),
        UrlObject (window_request test_config [''a'', ''b'', ''c''] \<lparr>startAt = 2, pageSize = 2\<rparr>),
        UrlObject (window_request test_config [''a'', ''b'', ''c''] \<lparr>startAt = 4, pageSize = 2\<rparr>),
        UrlObject (window_request test_config [''a'', ''b'', ''c''] \<lparr>startAt = 6, pageSize = 2\<rparr>)]
   \<and> outcome (getIssuesByComponents test_config (refusing_one fixture_issues 2 2) (\<lambda>i. 0)
        [''a'', ''b'', ''c''])
     = Inl (JiraResponseError
         (UrlObject (window_request test_config [''a'', ''b'', ''c''] \<lparr>startAt = 6, pageSize = 2\<rparr>))
         400 ''Bad Request'')
   \<and> searchParams_get ''startAt''
        (UrlObject (window_request test_config [''a'', ''b'', ''c''] \<lparr>startAt = 6, pageSize = 2\<rparr>))
     = Some ''6''
   \<and> searchParams_get ''startAt''
        (UrlObject (window_request test_config [''a'', ''b'', ''c''] \<lparr>startAt = 2, pageSize = 2\<rparr>))
     = Some ''2''"
  by code_simp

end
